theory Spec2Isabelle
  imports Main "HOL-Library.Word"
begin

unbundle bit_operations_syntax

section \<open>Trace identifiers (spanCollection.ts)\<close>

text \<open>
  JavaScript numbers are doubles. Every quantity of \<open>TraceIdentifier\<close> is a non-negative
  integer below \<open>2 ^ 53\<close> (bytes, 32-bit halves, and \<open>mod\<close> below \<open>radix * 2 ^ 32\<close> with
  \<open>radix \<le> 36\<close>), where double arithmetic is exact and \<open>Math.floor (a / b)\<close> is the
  integer quotient; they are modelled as \<open>nat\<close>. A radix is modelled as a natural number;
  \<open>Number.prototype.toString\<close> raises \<open>RangeError\<close> for a radix outside 2..36.
\<close>

datatype js_error = RangeError | TypeError | ReferenceError

type_synonym byte = "8 word"

record TraceIdentifier =
  buffer :: "byte list"

text \<open>\<open>window.crypto.getRandomValues\<close> overwrites every cell of the array; the random
  source is the parameter \<open>rnd\<close>, one byte for each index.\<close>

definition getRandomValues :: "(nat \<Rightarrow> byte) \<Rightarrow> byte list \<Rightarrow> byte list" where
  "getRandomValues rnd buf = map rnd [0..<length buf]"

definition constructor :: "(nat \<Rightarrow> byte) \<Rightarrow> TraceIdentifier" where
  "constructor rnd =
     (let buffer0 = getRandomValues rnd (replicate 8 0)
      in \<lparr>buffer = buffer0[0 := buffer0 ! 0 AND 0x7f]\<rparr>)"

definition readInt32 :: "TraceIdentifier \<Rightarrow> nat \<Rightarrow> nat" where
  "readInt32 t offset =
     unat (buffer t ! offset) * 16777216 +
     push_bit 16 (unat (buffer t ! (offset + 1))) +
     push_bit 8 (unat (buffer t ! (offset + 2))) +
     unat (buffer t ! (offset + 3))"

definition digitChar :: "nat \<Rightarrow> char" where
  "digitChar d = ''0123456789abcdefghijklmnopqrstuvwxyz'' ! d"

text \<open>\<open>Number.prototype.toString (radix)\<close> on a non-negative integer.\<close>

function natToRadix :: "nat \<Rightarrow> nat \<Rightarrow> string" where
  "natToRadix radix n =
     (if radix < 2 \<or> n < radix then [digitChar n]
      else natToRadix radix (n div radix) @ [digitChar (n mod radix)])"
  by pat_completeness auto
termination
  by (relation "measure (\<lambda>(radix, n). n)") auto

definition number_toString :: "nat \<Rightarrow> nat \<Rightarrow> js_error + string" where
  "number_toString n radix =
     (if radix < 2 \<or> 36 < radix then Inl RangeError else Inr (natToRadix radix n))"

text \<open>The \<open>while (1)\<close> loop of \<open>toString\<close>: the body runs, then the exit test.\<close>

function toString_loop :: "nat \<Rightarrow> nat \<Rightarrow> nat \<Rightarrow> string \<Rightarrow> js_error + string" where
  "toString_loop radix high low str =
     (let md = (high mod radix) * 4294967296 + low;
          high' = high div radix;
          low' = md div radix
      in case number_toString (md mod radix) radix of
           Inl e \<Rightarrow> Inl e
         | Inr d \<Rightarrow>
             (let str' = d @ str
              in if high' = 0 \<and> low' = 0 then Inr str'
                 else toString_loop radix high' low' str'))"
  by pat_completeness auto
termination
proof (relation "measure (\<lambda>(radix, high, low, str). high * 4294967296 + low)", goal_cases)
  case 1
  show ?case by simp
next
  case (2 radix high low str md high' low' d str')
  let ?N = "high * 4294967296 + low"
  from 2 have r: "2 \<le> radix"
    by (simp add: number_toString_def split: if_splits)
  have "?N = (high div radix * 4294967296) * radix + (high mod radix * 4294967296 + low)"
  proof -
    have "high * 4294967296 = (high div radix * radix + high mod radix) * 4294967296"
      by simp
    then show ?thesis by (simp only: algebra_simps)
  qed
  then have q: "?N div radix =
      high div radix * 4294967296 + (high mod radix * 4294967296 + low) div radix"
    using r by (simp only: div_mult_self3)
  from 2 have "0 < ?N div radix" unfolding q by auto
  then have "0 < ?N" by (cases "?N = 0") simp_all
  then have "?N div radix < ?N" using r by (intro div_less_dividend) simp_all
  with 2 show ?case unfolding q by simp
qed

declare toString_loop.simps [simp del]
declare natToRadix.simps [simp del]

definition toString :: "TraceIdentifier \<Rightarrow> nat \<Rightarrow> js_error + string" where
  "toString t radix =
     (let high = readInt32 t 0; low = readInt32 t 4; str = []
      in toString_loop radix high low str)"

definition toJSON :: "TraceIdentifier \<Rightarrow> js_error + string" where
  "toJSON t = toString t 10"

text \<open>
  The two notions the specification uses to state its properties, written from its
  words: the 64-bit value of the buffer (two 32-bit halves, big-endian), and the
  reading of a digit string in base \<open>r\<close> (most significant digit first, digits
  \<open>0-9a-z\<close>).
\<close>

definition bufferValue :: "TraceIdentifier \<Rightarrow> nat" where
  "bufferValue t = readInt32 t 0 * 2 ^ 32 + readInt32 t 4"

text \<open>The unsigned number a sequence of bytes denotes, most significant byte first;
  it does not go through \<open>readInt32\<close>.\<close>

definition bigEndian :: "byte list \<Rightarrow> nat" where
  "bigEndian bytes = foldl (\<lambda>acc b. acc * 256 + unat b) 0 bytes"

definition digitValue :: "char \<Rightarrow> nat" where
  "digitValue c = length (takeWhile (\<lambda>d. d \<noteq> c) ''0123456789abcdefghijklmnopqrstuvwxyz'')"

definition parseRadix :: "nat \<Rightarrow> string \<Rightarrow> nat" where
  "parseRadix r s = foldl (\<lambda>acc c. acc * r + digitValue c) 0 s"

section \<open>Batched delivery (core/transport.ts)\<close>

text \<open>
  A string is modelled by its UTF-8 bytes. \<open>encodeURI\<close> keeps the bytes of its
  unescaped set and writes every other byte as \<open>%XX\<close>; \<open>split (/%..|./)\<close> cuts at
  every match of the pattern, so it returns one piece more than there are matches, and
  \<open>~-n\<close> is \<open>n - 1\<close>.
\<close>

definition uriUnescaped :: "char \<Rightarrow> bool" where
  "uriUnescaped c \<longleftrightarrow>
     c \<in> set (''ABCDEFGHIJKLMNOPQRSTUVWXYZabcdefghijklmnopqrstuvwxyz0123456789''
              @ '';/?:@&=+$,-_.!~*()#'' @ [CHR 0x27])"

definition hexDigit :: "nat \<Rightarrow> char" where
  "hexDigit n = ''0123456789ABCDEF'' ! n"

definition encodeURI :: "string \<Rightarrow> string" where
  "encodeURI s =
     concat (map (\<lambda>c. if uriUnescaped c then [c]
                        else [CHR ''%'', hexDigit (of_char c div 16), hexDigit (of_char c mod 16)]) s)"

text \<open>The pattern \<open>.\<close> matches any character but a line terminator.\<close>

definition regexDot :: "char \<Rightarrow> bool" where
  "regexDot c \<longleftrightarrow> c \<noteq> CHR 0x0A \<and> c \<noteq> CHR 0x0D"

text \<open>The number of matches of \<open>/%..|./\<close> found by \<open>split\<close>, scanning from the left.\<close>

fun splitMatches :: "string \<Rightarrow> nat" where
  "splitMatches (c # d # e # cs) =
     (if c = CHR ''%'' \<and> regexDot d \<and> regexDot e then Suc (splitMatches cs)
      else if regexDot c then Suc (splitMatches (d # e # cs))
      else splitMatches (d # e # cs))"
| "splitMatches (c # cs) = (if regexDot c then Suc (splitMatches cs) else splitMatches cs)"
| "splitMatches [] = 0"

definition sizeInBytes :: "string \<Rightarrow> nat" where
  "sizeInBytes candidate = (splitMatches (encodeURI candidate) + 1) - 1"

text \<open>
  A message is represented by the text that \<open>JSON.stringify\<close> returns for it merged with
  the context of \<open>contextProvider\<close>. The calls \<open>request.send (data, size)\<close> are recorded
  in \<open>requestSends\<close>, oldest first. The timer of \<open>flushTic\<close> and the listeners of
  \<open>flushOnVisibilityHidden\<close> only call \<open>flush\<close>.
\<close>

type_synonym Message = string

record Batch =
  maxSize :: nat
  bytesLimit :: nat
  batchBuffer :: "string list"
  bufferBytesSize :: nat
  requestSends :: "(string \<times> nat) list"

definition newBatch :: "nat \<Rightarrow> nat \<Rightarrow> Batch" where
  "newBatch maxSize0 bytesLimit0 =
     \<lparr>maxSize = maxSize0, bytesLimit = bytesLimit0, batchBuffer = [],
      bufferBytesSize = 0, requestSends = []\<rparr>"

fun join :: "string \<Rightarrow> string list \<Rightarrow> string" where
  "join sep [] = []"
| "join sep [x] = x"
| "join sep (x # y # ys) = x @ sep @ join sep (y # ys)"

definition flush :: "Batch \<Rightarrow> Batch" where
  "flush b =
     (if length (batchBuffer b) \<noteq> 0
      then b\<lparr>requestSends := requestSends b @
                [(join [CHR 0x0A] (batchBuffer b),
                  bufferBytesSize b + length (batchBuffer b) - 1)],
             batchBuffer := [],
             bufferBytesSize := 0\<rparr>
      else b)"

definition process :: "Message \<Rightarrow> string \<times> nat" where
  "process message =
     (let processedMessage = message;
          messageBytesSize = sizeInBytes processedMessage
      in (processedMessage, messageBytesSize))"

definition push :: "Batch \<Rightarrow> string \<Rightarrow> nat \<Rightarrow> Batch" where
  "push b processedMessage messageBytesSize =
     b\<lparr>batchBuffer := batchBuffer b @ [processedMessage],
       bufferBytesSize := bufferBytesSize b + messageBytesSize\<rparr>"

definition willReachedBytesLimitWith :: "Batch \<Rightarrow> nat \<Rightarrow> bool" where
  "willReachedBytesLimitWith b messageBytesSize =
     (let separatorsBytesSize = length (batchBuffer b)
      in bufferBytesSize b + messageBytesSize + separatorsBytesSize \<ge> bytesLimit b)"

definition isFull :: "Batch \<Rightarrow> bool" where
  "isFull b \<longleftrightarrow> length (batchBuffer b) = maxSize b \<or> bufferBytesSize b \<ge> bytesLimit b"

definition add :: "Batch \<Rightarrow> Message \<Rightarrow> Batch" where
  "add b message =
     (case process message of (processedMessage, messageBytesSize) \<Rightarrow>
        let b1 = (if willReachedBytesLimitWith b messageBytesSize then flush b else b);
            b2 = push b1 processedMessage messageBytesSize
        in if isFull b2 then flush b2 else b2)"

datatype batch_op = Add Message | Flush

fun apply_op :: "Batch \<Rightarrow> batch_op \<Rightarrow> Batch" where
  "apply_op b (Add message) = add b message"
| "apply_op b Flush = flush b"

definition run :: "Batch \<Rightarrow> batch_op list \<Rightarrow> Batch" where
  "run b ops = foldl apply_op b ops"

section \<open>Header injection (spanCollection.ts)\<close>

text \<open>
  The page: the global \<open>origin\<close> (\<open>None\<close> in a browser that defines no such global,
  where reading it raises \<open>ReferenceError\<close>), \<open>window.location.origin\<close>, and
  \<open>window.ddtrace\<close>: \<open>None\<close> when \<open>'ddtrace' in window\<close> is false, \<open>Some None\<close> when the
  tracer has no active scope, \<open>Some (Some t)\<close> when the active scope's context holds the
  trace identifier \<open>t\<close>.
\<close>

record Window =
  origin :: "string option"
  location_origin :: string
  ddtrace :: "TraceIdentifier option option"

text \<open>
  An \<open>XMLHttpRequest\<close> as the wrappers see it. \<open>datadog_xhr\<close> is the property
  \<open>_datadog_xhr\<close>, the \<open>method\<close> and \<open>url\<close> that the wrapped \<open>open\<close> recorded; it is
  \<open>None\<close> (\<open>undefined\<close>) on an object whose \<open>open\<close> ran before the wrappers were
  installed, although the interface \<open>BrowserXHR\<close> declares it as always present.
  \<open>destinationOrigin\<close> is the origin (scheme, host, port) of the URL the browser
  resolved at \<open>open\<close>; \<open>requestHeaders\<close> lists the calls of \<open>setRequestHeader\<close>, oldest
  first.
\<close>

record BrowserXHR =
  datadog_xhr :: "(string \<times> string) option"
  destinationOrigin :: string
  readyState :: nat
  xhr_status :: nat
  xhr_response :: "string option"
  requestHeaders :: "(string \<times> string) list"

definition setRequestHeader :: "BrowserXHR \<Rightarrow> string \<Rightarrow> string \<Rightarrow> BrowserXHR" where
  "setRequestHeader xhr name v = xhr\<lparr>requestHeaders := requestHeaders xhr @ [(name, v)]\<rparr>"

definition traceAndInject ::
  "Window \<Rightarrow> (nat \<Rightarrow> byte) \<Rightarrow> (TraceIdentifier \<Rightarrow> 'a) \<Rightarrow> (TraceIdentifier \<Rightarrow> 'a) \<Rightarrow> 'a" where
  "traceAndInject w rnd getTraceIdFromTracer inject =
     (case ddtrace w of
        Some (Some activeTraceId) \<Rightarrow> getTraceIdFromTracer activeTraceId
      | _ \<Rightarrow> (let traceId = constructor rnd in inject traceId))"

definition traceXhr ::
  "Window \<Rightarrow> (nat \<Rightarrow> byte) \<Rightarrow> BrowserXHR \<Rightarrow> js_error + (BrowserXHR \<times> TraceIdentifier option)" where
  "traceXhr w rnd xhr =
     traceAndInject w rnd (\<lambda>activeTraceId. Inr (xhr, Some activeTraceId))
       (\<lambda>traceId.
          case origin w of
            None \<Rightarrow> Inl ReferenceError
          | Some origin0 \<Rightarrow>
              if origin0 \<noteq> location_origin w then Inr (xhr, None)
              else
                (case toString traceId 10 of
                   Inl e \<Rightarrow> Inl e
                 | Inr s1 \<Rightarrow>
                     (case toString traceId 10 of
                        Inl e \<Rightarrow> Inl e
                      | Inr s2 \<Rightarrow>
                          (let x1 = setRequestHeader xhr ''x-datadog-trace-id'' s1;
                               x2 = setRequestHeader x1 ''x-datadog-parent-id'' s2;
                               x3 = setRequestHeader x2 ''x-datadog-origin'' ''rum'';
                               x4 = setRequestHeader x3 ''x-datadog-sampling-priority'' ''1'';
                               x5 = setRequestHeader x4 ''x-datadog-sampled'' ''1''
                           in Inr (x5, Some traceId)))))"

text \<open>The five header names, and the names among them that a request carries.\<close>

definition datadogHeaders :: "string list" where
  "datadogHeaders =
     [''x-datadog-trace-id'', ''x-datadog-parent-id'', ''x-datadog-origin'',
      ''x-datadog-sampling-priority'', ''x-datadog-sampled'']"

definition attachedBy :: "BrowserXHR \<Rightarrow> BrowserXHR \<Rightarrow> string list" where
  "attachedBy before after =
     filter (\<lambda>n. n \<in> fst ` set (drop (length (requestHeaders before)) (requestHeaders after)))
       datadogHeaders"

section \<open>Request collection (requestCollection.ts)\<close>

datatype RequestType = FETCH | XHR

record RequestCompleteEvent =
  requestId :: nat  requestType :: RequestType  requestMethod :: string  url :: string
  status :: nat  response :: "string option"  responseType :: "string option"
  startTime :: int  duration :: int  traceId :: "TraceIdentifier option"

text \<open>
  The module state: the counter \<open>nextRequestId\<close> and, for each of the two observables,
  the events \<open>notify\<close> has published, oldest first (a start event is its \<open>requestId\<close>).
  Clock readings of \<open>performance.now\<close> are inputs.
\<close>

record Collection =
  nextRequestId :: nat
  startEvents :: "nat list"
  completeEvents :: "RequestCompleteEvent list"


text \<open>
  Modelled from the spec: \<open>monitor\<close> (./internalMonitoring is not among the sources)
  wraps a callback so that a fault it raises is swallowed and reported internally,
  never surfacing through the wrapped call. Here it takes the outcome of the callback
  and the state the callback leaves behind when it raises.
\<close>

definition monitor :: "js_error + 's \<Rightarrow> 's \<Rightarrow> 's" where
  "monitor outcome before = (case outcome of Inl e \<Rightarrow> before | Inr after \<Rightarrow> after)"

subsection \<open>The callback-based surface\<close>

text \<open>The variables one call of the wrapped \<open>send\<close> closes over.\<close>

record XhrCall =
  call_requestId :: nat
  call_startTime :: int
  call_traceId :: "TraceIdentifier option"
  hasBeenReported :: bool

definition XMLHttpRequest_DONE :: nat where
  "XMLHttpRequest_DONE = 4"


text \<open>The wrapped \<open>open\<close> records its arguments on the object, then calls the original.\<close>

definition xhrOpen :: "BrowserXHR \<Rightarrow> string \<Rightarrow> string \<Rightarrow> BrowserXHR" where
  "xhrOpen xhr method0 url0 = xhr\<lparr>datadog_xhr := Some (method0, url0)\<rparr>"

text \<open>
  \<open>reportXhr\<close> sets the latch, then builds the event. Reading \<open>method\<close> of an
  undefined \<open>_datadog_xhr\<close> raises \<open>TypeError\<close> before \<open>notify\<close> is called; the latch
  stays set, which is the state \<open>latched\<close>.
\<close>

definition reportXhr ::
  "(string \<Rightarrow> string) \<Rightarrow> int \<Rightarrow> BrowserXHR \<Rightarrow> XhrCall \<times> Collection \<Rightarrow>
     js_error + (XhrCall \<times> Collection)" where
  "reportXhr normalizeUrl now xhr cg =
     (case cg of (c, g) \<Rightarrow>
        if hasBeenReported c then Inr (c, g)
        else
          (let c1 = c\<lparr>hasBeenReported := True\<rparr>
           in case datadog_xhr xhr of
                None \<Rightarrow> Inl TypeError
              | Some (method0, url0) \<Rightarrow>
                  Inr (c1,
                       g\<lparr>completeEvents := completeEvents g @
                           [\<lparr>requestId = call_requestId c,
                             requestType = XHR,
                             requestMethod = method0,
                             url = normalizeUrl url0,
                             status = xhr_status xhr,
                             response = xhr_response xhr,
                             responseType = None,
                             startTime = call_startTime c,
                             duration = now - call_startTime c,
                             traceId = call_traceId c\<rparr>]\<rparr>)))"

definition latched :: "XhrCall \<times> Collection \<Rightarrow> XhrCall \<times> Collection" where
  "latched cg = (case cg of (c, g) \<Rightarrow> (c\<lparr>hasBeenReported := True\<rparr>, g))"

text \<open>
  The two completion signals armed by \<open>send\<close>. An occurrence carries the state of the
  request object when its handler runs and the clock reading. The handler installed as
  \<open>onreadystatechange\<close> then calls the handler it replaced, which is the application's.
\<close>

datatype xhr_signal = ReadyStateChange | LoadEnd

type_synonym xhr_occurrence = "xhr_signal \<times> BrowserXHR \<times> int"

fun onSignal ::
  "(string \<Rightarrow> string) \<Rightarrow> XhrCall \<times> Collection \<Rightarrow> xhr_occurrence \<Rightarrow> XhrCall \<times> Collection" where
  "onSignal normalizeUrl cg (ReadyStateChange, xhr, now) =
     (if readyState xhr = XMLHttpRequest_DONE
      then monitor (reportXhr normalizeUrl now xhr cg) (latched cg)
      else cg)"
| "onSignal normalizeUrl cg (LoadEnd, xhr, now) =
     monitor (reportXhr normalizeUrl now xhr cg) (latched cg)"

definition deliver ::
  "(string \<Rightarrow> string) \<Rightarrow> XhrCall \<times> Collection \<Rightarrow> xhr_occurrence list \<Rightarrow> XhrCall \<times> Collection" where
  "deliver normalizeUrl cg occurrences = foldl (onSignal normalizeUrl) cg occurrences"

subsection \<open>The promise-based surface\<close>

datatype RequestInfo = UrlString string | RequestObject string string

record Response =
  resp_status :: nat
  resp_type :: string
  clone_text :: "string + string"

text \<open>
  The value a promise settles with, by what \<open>reportFetch\<close> tests of it: an instance of
  \<open>Error\<close>; another object with a \<open>stack\<close> property; an object with a \<open>status\<close> property
  and no \<open>stack\<close> (a \<open>Response\<close>; \<open>clone_text\<close> is the text of its clone, or the
  rendering of what reading it raised); any other object; a primitive, on which the
  operator \<open>in\<close> raises \<open>TypeError\<close>.
\<close>

datatype 'e settled_value =
  ErrorInstance 'e
| StackObject 'e
| ResponseObject Response
| OtherObject
| Primitive

datatype 'e settlement = Fulfilled "'e settled_value" | Rejected "'e settled_value"

text \<open>The variables one call of the wrapped \<open>fetch\<close> closes over.\<close>

record FetchCall =
  fetch_method :: string
  fetch_startTime :: int
  fetch_requestId :: nat
  fetch_traceId :: "TraceIdentifier option"
  fetch_input :: RequestInfo

definition reportFetch ::
  "('e \<Rightarrow> 'st) \<Rightarrow> ('st \<Rightarrow> string) \<Rightarrow> (string \<Rightarrow> string) \<Rightarrow> int \<Rightarrow> FetchCall \<Rightarrow>
     'e settled_value \<Rightarrow> Collection \<Rightarrow> js_error + Collection" where
  "reportFetch computeStackTrace toStackTraceString normalizeUrl now c v g =
     (let duration0 = now - fetch_startTime c;
          url0 = normalizeUrl (case fetch_input c of RequestObject u m \<Rightarrow> u | UrlString u \<Rightarrow> u);
          onError = (\<lambda>e.
            let stackTrace = computeStackTrace e
            in Inr (g\<lparr>completeEvents := completeEvents g @
                 [\<lparr>requestId = fetch_requestId c,
                   requestType = FETCH,
                   requestMethod = fetch_method c,
                   url = url0,
                   status = 0,
                   response = Some (toStackTraceString stackTrace),
                   responseType = None,
                   startTime = fetch_startTime c,
                   duration = duration0,
                   traceId = fetch_traceId c\<rparr>]\<rparr>))
      in case v of
           Primitive \<Rightarrow> Inl TypeError
         | ErrorInstance e \<Rightarrow> onError e
         | StackObject e \<Rightarrow> onError e
         | ResponseObject r \<Rightarrow>
             (let text0 = (case clone_text r of
                             Inr t \<Rightarrow> t
                           | Inl e \<Rightarrow> ''Unable to retrieve response: '' @ e)
              in Inr (g\<lparr>completeEvents := completeEvents g @
                   [\<lparr>requestId = fetch_requestId c,
                     requestType = FETCH,
                     requestMethod = fetch_method c,
                     url = url0,
                     status = resp_status r,
                     response = Some text0,
                     responseType = Some (resp_type r),
                     startTime = fetch_startTime c,
                     duration = duration0,
                     traceId = fetch_traceId c\<rparr>]\<rparr>))
         | OtherObject \<Rightarrow> Inr g)"

text \<open>\<open>responsePromise.then (monitor (reportFetch), monitor (reportFetch))\<close>: a promise
  settles once, and \<open>then\<close> calls the handler of that settlement once.\<close>

definition onSettled ::
  "('e \<Rightarrow> 'st) \<Rightarrow> ('st \<Rightarrow> string) \<Rightarrow> (string \<Rightarrow> string) \<Rightarrow> int \<Rightarrow> FetchCall \<Rightarrow>
     'e settlement \<Rightarrow> Collection \<Rightarrow> Collection" where
  "onSettled computeStackTrace toStackTraceString normalizeUrl now c s g =
     (case s of
        Fulfilled v \<Rightarrow>
          monitor (reportFetch computeStackTrace toStackTraceString normalizeUrl now c v g) g
      | Rejected v \<Rightarrow>
          monitor (reportFetch computeStackTrace toStackTraceString normalizeUrl now c v g) g)"

subsection \<open>Installing the wrappers\<close>

text \<open>
  A call surface is the platform's own function or a wrapper, which holds the pair of
  observables it notifies and the original it saved. \<open>window.fetch\<close> may be absent.
  An observable is identified by the order of its creation.
\<close>

datatype call_surface = Native | Wrapper "nat \<times> nat" call_surface

record Platform =
  xhr_open :: call_surface
  xhr_send :: call_surface
  window_fetch :: "call_surface option"
  requestObservablesSingleton :: "(nat \<times> nat) option"
  observablesCreated :: nat

definition trackXhr :: "nat \<times> nat \<Rightarrow> Platform \<Rightarrow> Platform" where
  "trackXhr observables p =
     (let originalOpen = xhr_open p;
          p1 = p\<lparr>xhr_open := Wrapper observables originalOpen\<rparr>;
          originalSend = xhr_send p1
      in p1\<lparr>xhr_send := Wrapper observables originalSend\<rparr>)"

definition trackFetch :: "nat \<times> nat \<Rightarrow> Platform \<Rightarrow> Platform" where
  "trackFetch observables p =
     (case window_fetch p of
        None \<Rightarrow> p
      | Some originalFetch \<Rightarrow> p\<lparr>window_fetch := Some (Wrapper observables originalFetch)\<rparr>)"

definition startRequestCollection :: "Platform \<Rightarrow> (nat \<times> nat) \<times> Platform" where
  "startRequestCollection p =
     (case requestObservablesSingleton p of
        None \<Rightarrow>
          (let created = (observablesCreated p, observablesCreated p + 1);
               p1 = p\<lparr>requestObservablesSingleton := Some created,
                      observablesCreated := observablesCreated p + 2\<rparr>;
               p2 = trackXhr created p1;
               p3 = trackFetch created p2
           in (created, p3))
      | Some existing \<Rightarrow> (existing, p))"

text \<open>How many wrappers lie over the platform's own function.\<close>

fun wrapDepth :: "call_surface \<Rightarrow> nat" where
  "wrapDepth Native = 0"
| "wrapDepth (Wrapper observables original) = Suc (wrapDepth original)"

text \<open>Any number of further calls of the installer.\<close>

fun startAgain :: "nat \<Rightarrow> Platform \<Rightarrow> Platform" where
  "startAgain 0 p = p"
| "startAgain (Suc n) p = startAgain n (snd (startRequestCollection p))"

text \<open>The platform before the installer has run, with or without \<open>window.fetch\<close>.\<close>

definition pristine :: "bool \<Rightarrow> Platform" where
  "pristine hasFetch =
     \<lparr>xhr_open = Native, xhr_send = Native,
      window_fetch = (if hasFetch then Some Native else None),
      requestObservablesSingleton = None, observablesCreated = 0\<rparr>"

section \<open>Auxiliary notions and example inputs\<close>

text \<open>What every operation of a batch preserves: the accumulator is the sum of the sizes
  of the buffered records, and the buffer is empty or under both ceilings.\<close>

definition batchInv :: "Batch \<Rightarrow> bool" where
  "batchInv b \<longleftrightarrow>
     bufferBytesSize b = sum_list (map sizeInBytes (batchBuffer b)) \<and>
     (batchBuffer b = [] \<or> bufferBytesSize b < bytesLimit b) \<and>
     (0 < maxSize b \<longrightarrow> length (batchBuffer b) < maxSize b)"

text \<open>An occurrence whose handler calls \<open>reportXhr\<close>.\<close>

definition completes :: "xhr_occurrence \<Rightarrow> bool" where
  "completes occ \<longleftrightarrow>
     (case occ of (ReadyStateChange, xhr, now) \<Rightarrow> readyState xhr = XMLHttpRequest_DONE
                | (LoadEnd, xhr, now) \<Rightarrow> True)"

text \<open>
  The statement of the specification about header injection, in its words: a request
  to a same-origin destination receives all five headers, a request to a cross-origin
  destination receives none of them.
\<close>

definition headersAsSpecified :: "Window \<Rightarrow> (nat \<Rightarrow> byte) \<Rightarrow> BrowserXHR \<Rightarrow> bool" where
  "headersAsSpecified w rnd xhr =
     (case traceXhr w rnd xhr of
        Inl e \<Rightarrow> False
      | Inr (xhr1, t) \<Rightarrow>
          attachedBy xhr xhr1 =
            (if destinationOrigin xhr = location_origin w then datadogHeaders else []))"

definition zeroSource :: "nat \<Rightarrow> byte" where
  "zeroSource i = 0"

definition examplePage :: Window where
  "examplePage =
     \<lparr>origin = Some ''https://app.example'', location_origin = ''https://app.example'',
      ddtrace = None\<rparr>"

definition tracedPage :: Window where
  "tracedPage = examplePage\<lparr>ddtrace := Some (Some \<lparr>buffer = [0, 0, 0, 0, 0, 0, 0, 7]\<rparr>)\<rparr>"

definition exampleXhr :: "string \<Rightarrow> string \<Rightarrow> BrowserXHR" where
  "exampleXhr destination target =
     \<lparr>datadog_xhr = Some (''GET'', target), destinationOrigin = destination,
      readyState = 1, xhr_status = 0, xhr_response = None, requestHeaders = []\<rparr>"


definition exampleFormatter :: "string \<Rightarrow> string" where
  "exampleFormatter stackTrace = ''Error: '' @ stackTrace"

section \<open>Properties of trace identifiers\<close>

lemma unat_byte_less: "unat (b :: byte) < 256"
proof -
  have "unat b < 2 ^ LENGTH(8)" by (rule unsigned_less)
  then show ?thesis by simp
qed

lemma buffer_constructor:
  "buffer (constructor rnd) =
     [rnd 0 AND 0x7f, rnd 1, rnd 2, rnd 3, rnd 4, rnd 5, rnd 6, rnd 7]"
  by (simp add: constructor_def getRandomValues_def upt_rec numeral_eq_Suc)

lemma length_buffer_constructor: "length (buffer (constructor rnd)) = 8"
  by (simp add: buffer_constructor)

lemma readInt32_less: "readInt32 t offset < 2 ^ 32"
proof -
  have "unat (buffer t ! offset) < 256" "unat (buffer t ! (offset + 1)) < 256"
    "unat (buffer t ! (offset + 2)) < 256" "unat (buffer t ! (offset + 3)) < 256"
    by (rule unat_byte_less)+
  then show ?thesis
    by (simp add: readInt32_def push_bit_eq_mult)
qed

lemma unat_and_7f: "unat ((b :: byte) AND 0x7f) < 128"
proof -
  have "unat (b AND 0x7f) \<le> unat (0x7f :: byte)"
    by (rule word_and_le1 [THEN word_le_nat_alt [THEN iffD1]])
  then show ?thesis by simp
qed

lemma readInt32_high_constructor: "readInt32 (constructor rnd) 0 < 2 ^ 31"
proof -
  have "unat (rnd 0 AND 0x7f) < 128" "unat (rnd 1) < 256" "unat (rnd 2) < 256" "unat (rnd 3) < 256"
    by (rule unat_and_7f unat_byte_less)+
  then show ?thesis
    by (simp add: readInt32_def buffer_constructor push_bit_eq_mult)
qed

text \<open>
  C9. Whatever bytes the random source delivers, the identifier the constructor builds
  has a 64-bit buffer value strictly below \<open>2 ^ 63\<close>, and the most significant bit of
  byte 0 is cleared.
\<close>

theorem constructor_63_bit:
  "bufferValue (constructor rnd) < 2 ^ 63 \<and> \<not> bit (buffer (constructor rnd) ! 0) 7"
proof
  have "readInt32 (constructor rnd) 0 < 2 ^ 31" by (rule readInt32_high_constructor)
  then have h: "readInt32 (constructor rnd) 0 \<le> 2147483647" by simp
  have "readInt32 (constructor rnd) 4 < 2 ^ 32" by (rule readInt32_less)
  then have l: "readInt32 (constructor rnd) 4 < 4294967296" by simp
  from h have "readInt32 (constructor rnd) 0 * 4294967296 \<le> 2147483647 * 4294967296"
    by (rule mult_le_mono1)
  with l have "readInt32 (constructor rnd) 0 * 4294967296 + readInt32 (constructor rnd) 4
      < 9223372036854775808"
    by linarith
  then show "bufferValue (constructor rnd) < 2 ^ 63"
    by (simp add: bufferValue_def)
next
  have "(0x7f :: byte) = mask 7"
    by (simp add: mask_eq_exp_minus_1)
  then have "\<not> bit (0x7f :: byte) 7"
    by (simp only: bit_mask_iff) simp
  then have "\<not> bit (rnd 0 AND 0x7f) 7"
    by (simp only: bit_and_iff) simp
  then show "\<not> bit (buffer (constructor rnd) ! 0) 7"
    by (simp only: buffer_constructor nth_Cons_0 not_False_eq_True)
qed

lemma digitValue_digitChar_all: "\<forall>d \<in> set [0..<36]. digitValue (digitChar d) = d"
  by code_simp

lemma digitValue_digitChar: "d < 36 \<Longrightarrow> digitValue (digitChar d) = d"
  using digitValue_digitChar_all by simp

lemma natToRadix_digit: "n < radix \<Longrightarrow> natToRadix radix n = [digitChar n]"
  by (simp add: natToRadix.simps)

lemma number_toString_digit:
  "2 \<le> radix \<Longrightarrow> radix \<le> 36 \<Longrightarrow> n < radix \<Longrightarrow> number_toString n radix = Inr [digitChar n]"
  by (simp add: number_toString_def natToRadix_digit)

lemma long_div: fixes high low radix :: nat assumes "0 < radix"
  shows "high div radix * 4294967296 + (high mod radix * 4294967296 + low) div radix
           = (high * 4294967296 + low) div radix"
    and "(high mod radix * 4294967296 + low) mod radix = (high * 4294967296 + low) mod radix"
proof -
  have split: "high * 4294967296 + low =
      (high div radix * 4294967296) * radix + (high mod radix * 4294967296 + low)"
  proof -
    have "high * 4294967296 = (high div radix * radix + high mod radix) * 4294967296" by simp
    then show ?thesis by (simp only: algebra_simps)
  qed
  show "high div radix * 4294967296 + (high mod radix * 4294967296 + low) div radix
           = (high * 4294967296 + low) div radix"
    using assms by (simp only: split div_mult_self3)
  show "(high mod radix * 4294967296 + low) mod radix = (high * 4294967296 + low) mod radix"
    by (simp only: split mod_mult_self3)
qed

lemma parseRadix_snoc: "parseRadix r (ds @ [c]) = parseRadix r ds * r + digitValue c"
  by (simp add: parseRadix_def)

lemma toString_loop_digits:
  assumes "2 \<le> radix" "radix \<le> 36"
  shows "\<exists>ds. toString_loop radix high low str = Inr (ds @ str) \<and> ds \<noteq> [] \<and>
           parseRadix radix ds = high * 4294967296 + low \<and>
           list_all (\<lambda>c. digitValue c < radix) ds \<and>
           (high = 0 \<and> low = 0 \<longrightarrow> ds = ''0'')"
proof (induction "high * 4294967296 + low" arbitrary: high low str rule: less_induct)
  case less
  let ?N = "high * 4294967296 + low"
  let ?md = "high mod radix * 4294967296 + low"
  let ?d = "digitChar (?N mod radix)"
  from assms have r0: "0 < radix" by simp
  have dq: "high div radix * 4294967296 + ?md div radix = ?N div radix"
    and dm: "?md mod radix = ?N mod radix"
    using long_div [OF r0] by blast+
  have lt: "?N mod radix < radix" using r0 by simp
  have digit: "number_toString (?md mod radix) radix = Inr [?d]"
    unfolding dm using assms lt by (rule number_toString_digit)
  have "?N mod radix < 36" using lt assms by linarith
  then have dv: "digitValue ?d = ?N mod radix"
    by (rule digitValue_digitChar)
  show ?case
  proof (cases "high div radix = 0 \<and> ?md div radix = 0")
    case True
    then have "?N div radix = 0" using dq by simp
    then have small: "?N mod radix = ?N" using r0
      by (metis div_mult_mod_eq add_0 mult_0_right mult.commute)
    have res: "toString_loop radix high low str = Inr ([?d] @ str)"
      by (subst toString_loop.simps) (simp only: Let_def digit sum.case True simp_thms if_True)
    have "parseRadix radix [?d] = ?N"
      using dv small by (simp add: parseRadix_def)
    moreover have "high = 0 \<and> low = 0 \<longrightarrow> [?d] = ''0''"
      by (simp add: digitChar_def)
    moreover have "list_all (\<lambda>c. digitValue c < radix) [?d]"
      using dv lt by simp
    ultimately show ?thesis using res by blast
  next
    case False
    let ?h = "high div radix" and ?l = "?md div radix"
    have pos: "0 < ?N div radix" using False dq by auto
    then have Npos: "0 < ?N" by (cases "?N = 0") simp_all
    then have "?N div radix < ?N" using assms by (intro div_less_dividend) simp_all
    then have "?h * 4294967296 + ?l < ?N" using dq by simp
    from less [OF this, of "[?d] @ str"] obtain ds where
      ds: "toString_loop radix ?h ?l ([?d] @ str) = Inr (ds @ [?d] @ str)" "ds \<noteq> []"
        "parseRadix radix ds = ?h * 4294967296 + ?l"
        "list_all (\<lambda>c. digitValue c < radix) ds"
      by blast
    have res: "toString_loop radix high low str = Inr ((ds @ [?d]) @ str)"
      by (subst toString_loop.simps)
        (simp only: Let_def digit sum.case False if_False ds(1) append_assoc)
    have "parseRadix radix (ds @ [?d]) = ?N div radix * radix + ?N mod radix"
      using ds(3) dq dv by (simp only: parseRadix_snoc)
    then have "parseRadix radix (ds @ [?d]) = ?N" by simp
    moreover have "\<not> (high = 0 \<and> low = 0)" using Npos by auto
    moreover have "list_all (\<lambda>c. digitValue c < radix) (ds @ [?d])"
      using ds(4) dv lt by simp
    ultimately show ?thesis using res by blast
  qed
qed

lemma toString_digits:
  assumes "2 \<le> radix" "radix \<le> 36"
  shows "\<exists>ds. toString t radix = Inr ds \<and> ds \<noteq> [] \<and>
           parseRadix radix ds = bufferValue t \<and>
           list_all (\<lambda>c. digitValue c < radix) ds \<and>
           (readInt32 t 0 = 0 \<and> readInt32 t 4 = 0 \<longrightarrow> ds = ''0'')"
  using toString_loop_digits [OF assms, of "readInt32 t 0" "readInt32 t 4" "[]"]
  by (simp add: toString_def bufferValue_def)

lemma readInt32_zero:
  "buffer t = replicate 8 0 \<Longrightarrow> offset \<le> 4 \<Longrightarrow> readInt32 t offset = 0"
  by (simp add: readInt32_def)

text \<open>Outside 2..36 the first digit conversion raises, whatever the buffer holds.\<close>

lemma toString_invalid_radix:
  "radix < 2 \<or> 36 < radix \<Longrightarrow> toString t radix = Inl RangeError"
  by (simp add: toString_def toString_loop.simps [of radix] number_toString_def Let_def)

lemma length_8_cases:
  "length bs = 8 \<Longrightarrow> \<exists>b0 b1 b2 b3 b4 b5 b6 b7. bs = [b0, b1, b2, b3, b4, b5, b6, b7]"
  by (auto simp: length_Suc_conv numeral_eq_Suc)

lemma bufferValue_bigEndian:
  assumes "length (buffer t) = 8"
  shows "bufferValue t = bigEndian (buffer t)"
proof -
  from assms obtain b0 b1 b2 b3 b4 b5 b6 b7
    where bs: "buffer t = [b0, b1, b2, b3, b4, b5, b6, b7]"
    using length_8_cases by blast
  have hi: "readInt32 t 0 = unat b0 * 16777216 + unat b1 * 65536 + unat b2 * 256 + unat b3"
    by (simp add: readInt32_def bs push_bit_eq_mult)
  have lo: "readInt32 t 4 = unat b4 * 16777216 + unat b5 * 65536 + unat b6 * 256 + unat b7"
    by (simp add: readInt32_def bs push_bit_eq_mult)
  show ?thesis
    by (simp add: bufferValue_def bigEndian_def bs hi lo algebra_simps)
qed

text \<open>
  C2. For every radix from 2 to 36 and every buffer of 8 bytes, \<open>toString\<close> returns a
  string of digits of that radix whose reading in that radix is the number the 8 bytes
  denote, most significant byte first (the two 32-bit halves read big-endian).
\<close>

theorem toString_roundtrip:
  assumes "2 \<le> radix" and "radix \<le> 36" and "length (buffer t) = 8"
  shows "\<exists>s. toString t radix = Inr s \<and> list_all (\<lambda>c. digitValue c < radix) s \<and>
           parseRadix radix s = bigEndian (buffer t)"
  using toString_digits [OF assms(1,2), of t] bufferValue_bigEndian [OF assms(3)] by auto

lemma toString_example:
  "toString \<lparr>buffer = [0, 0, 0, 1, 0, 0, 2, 3]\<rparr> 16 = Inr ''100000203''"
  by (simp add: toString_def readInt32_def toString_loop.simps number_toString_def
      natToRadix.simps digitChar_def)

theorem toString_roundtrip_witness:
  "toString \<lparr>buffer = [0, 0, 0, 1, 0, 0, 2, 3]\<rparr> 16 = Inr ''100000203'' \<and>
   parseRadix 16 ''100000203'' = 4294967811 \<and>
   bigEndian [0, 0, 0, 1, 0, 0, 2, 3] = 4294967811"
proof -
  let ?t = "\<lparr>buffer = [0, 0, 0, 1, 0, 0, 2, 3]\<rparr>"
  have len: "length (buffer ?t) = 8" by simp
  from toString_roundtrip [of 16 ?t, OF _ _ len] obtain s where
    s: "toString ?t 16 = Inr s" "parseRadix 16 s = bigEndian (buffer ?t)"
    by auto
  from s(1) have "s = ''100000203''" by (simp add: toString_example)
  with s(2) have "parseRadix 16 ''100000203'' = bigEndian [0, 0, 0, 1, 0, 0, 2, 3]" by simp
  moreover have "bigEndian [0, 0, 0, 1, 0, 0, 2, 3] = 4294967811"
    by (simp add: bigEndian_def)
  ultimately show ?thesis by (simp add: toString_example)
qed

text \<open>
  C10. For every radix from 2 to 36 and every 8-byte buffer, \<open>toString\<close> returns a
  non-empty string, and the all-zero identifier is written as the single digit 0: the
  body of the loop runs once before the exit test.
\<close>

theorem toString_nonempty:
  assumes "2 \<le> radix" and "radix \<le> 36" and "length (buffer t) = 8"
  shows "(\<exists>s. toString t radix = Inr s \<and> s \<noteq> []) \<and>
         (buffer t = replicate 8 0 \<longrightarrow> toString t radix = Inr ''0'')"
  using toString_digits [OF assms(1,2), of t] readInt32_zero [of t 0] readInt32_zero [of t 4]
  by auto

theorem toString_nonempty_witness:
  "(2::nat) \<le> 10 \<and> (10::nat) \<le> 36 \<and> length (buffer \<lparr>buffer = replicate 8 0\<rparr>) = 8 \<and>
   buffer \<lparr>buffer = replicate 8 0\<rparr> = replicate 8 0 \<and>
   toString \<lparr>buffer = replicate 8 0\<rparr> 10 = Inr ''0''"
  using toString_nonempty [of 10 "\<lparr>buffer = replicate 8 0\<rparr>"] by simp


section \<open>Properties of header injection\<close>

lemma traceXhr_adopts:
  "ddtrace w = Some (Some t) \<Longrightarrow> traceXhr w rnd xhr = Inr (xhr, Some t)"
  by (simp add: traceXhr_def traceAndInject_def)

lemma toString_10: "\<exists>s. toString t 10 = Inr s \<and> s \<noteq> []"
  using toString_digits [of 10 t] by auto

lemma toString_zeroSource: "toString (constructor zeroSource) 10 = Inr ''0''"
proof -
  have z: "buffer (constructor zeroSource) = replicate 8 0"
    by (simp add: buffer_constructor zeroSource_def numeral_eq_Suc)
  show ?thesis
    using toString_digits [of 10 "constructor zeroSource"]
      readInt32_zero [OF z, of 0] readInt32_zero [OF z, of 4] by auto
qed

lemma traceXhr_mints:
  assumes "ddtrace w \<in> {None, Some None}" and "origin w = Some (location_origin w)"
    and "toString (constructor rnd) 10 = Inr s"
  shows "traceXhr w rnd xhr =
     Inr (xhr\<lparr>requestHeaders := requestHeaders xhr @
            [(''x-datadog-trace-id'', s), (''x-datadog-parent-id'', s),
             (''x-datadog-origin'', ''rum''), (''x-datadog-sampling-priority'', ''1''),
             (''x-datadog-sampled'', ''1'')]\<rparr>,
          Some (constructor rnd))"
  using assms
  by (auto simp: traceXhr_def traceAndInject_def setRequestHeader_def Let_def)

text \<open>
  C3 (as amended). When an upstream tracer has an active scope, \<open>traceXhr\<close> adopts its
  identifier and attaches no header. When none is active and the global \<open>origin\<close> of
  the page equals \<open>window.location.origin\<close>, \<open>traceXhr\<close> attaches all five headers,
  in the order of the source, to every request whose destination is same-origin; the
  trace and parent identifiers are the new identifier in base 10.
\<close>

theorem traceXhr_injects:
  "(ddtrace w = Some (Some t) \<longrightarrow>
      traceXhr w rnd xhr = Inr (xhr, Some t) \<and> attachedBy xhr xhr = []) \<and>
   (ddtrace w \<in> {None, Some None} \<and> origin w = Some (location_origin w) \<and>
    destinationOrigin xhr = location_origin w \<longrightarrow>
      (\<exists>xhr1 s. traceXhr w rnd xhr = Inr (xhr1, Some (constructor rnd)) \<and>
         toString (constructor rnd) 10 = Inr s \<and>
         requestHeaders xhr1 = requestHeaders xhr @
           [(''x-datadog-trace-id'', s), (''x-datadog-parent-id'', s),
            (''x-datadog-origin'', ''rum''), (''x-datadog-sampling-priority'', ''1''),
            (''x-datadog-sampled'', ''1'')] \<and>
         attachedBy xhr xhr1 = datadogHeaders))"
proof (intro conjI impI)
  assume "ddtrace w = Some (Some t)"
  then show "traceXhr w rnd xhr = Inr (xhr, Some t)" by (rule traceXhr_adopts)
next
  show "attachedBy xhr xhr = []" by (simp add: attachedBy_def datadogHeaders_def)
next
  assume a: "ddtrace w \<in> {None, Some None} \<and> origin w = Some (location_origin w) \<and>
    destinationOrigin xhr = location_origin w"
  obtain s where s: "toString (constructor rnd) 10 = Inr s" using toString_10 by blast
  let ?hs = "[(''x-datadog-trace-id'', s), (''x-datadog-parent-id'', s),
            (''x-datadog-origin'', ''rum''), (''x-datadog-sampling-priority'', ''1''),
            (''x-datadog-sampled'', ''1'')]"
  let ?x = "xhr\<lparr>requestHeaders := requestHeaders xhr @ ?hs\<rparr>"
  from a have "traceXhr w rnd xhr = Inr (?x, Some (constructor rnd))"
    by (intro traceXhr_mints s) simp_all
  moreover have "attachedBy xhr ?x = datadogHeaders"
    by (simp add: attachedBy_def datadogHeaders_def)
  ultimately show "\<exists>xhr1 s. traceXhr w rnd xhr = Inr (xhr1, Some (constructor rnd)) \<and>
         toString (constructor rnd) 10 = Inr s \<and>
         requestHeaders xhr1 = requestHeaders xhr @
           [(''x-datadog-trace-id'', s), (''x-datadog-parent-id'', s),
            (''x-datadog-origin'', ''rum''), (''x-datadog-sampling-priority'', ''1''),
            (''x-datadog-sampled'', ''1'')] \<and>
         attachedBy xhr xhr1 = datadogHeaders"
    using s by auto
qed

theorem traceXhr_injects_witness:
  "ddtrace tracedPage = Some (Some \<lparr>buffer = [0, 0, 0, 0, 0, 0, 0, 7]\<rparr>) \<and>
   traceXhr tracedPage zeroSource (exampleXhr ''https://app.example'' ''/api'') =
     Inr (exampleXhr ''https://app.example'' ''/api'', Some \<lparr>buffer = [0, 0, 0, 0, 0, 0, 0, 7]\<rparr>) \<and>
   ddtrace examplePage \<in> {None, Some None} \<and>
   origin examplePage = Some (location_origin examplePage) \<and>
   destinationOrigin (exampleXhr ''https://app.example'' ''/api'') = location_origin examplePage \<and>
   (\<exists>xhr1. traceXhr examplePage zeroSource (exampleXhr ''https://app.example'' ''/api'') =
       Inr (xhr1, Some (constructor zeroSource)) \<and>
     requestHeaders xhr1 =
       [(''x-datadog-trace-id'', ''0''), (''x-datadog-parent-id'', ''0''),
        (''x-datadog-origin'', ''rum''), (''x-datadog-sampling-priority'', ''1''),
        (''x-datadog-sampled'', ''1'')])"
proof -
  have t: "ddtrace tracedPage = Some (Some \<lparr>buffer = [0, 0, 0, 0, 0, 0, 0, 7]\<rparr>)"
    by (simp add: tracedPage_def)
  have e: "ddtrace examplePage \<in> {None, Some None} \<and>
      origin examplePage = Some (location_origin examplePage) \<and>
      destinationOrigin (exampleXhr ''https://app.example'' ''/api'') = location_origin examplePage"
    by (simp add: examplePage_def exampleXhr_def)
  have x: "requestHeaders (exampleXhr ''https://app.example'' ''/api'') = []"
    by (simp add: exampleXhr_def)
  show ?thesis
    using traceXhr_injects [of tracedPage "\<lparr>buffer = [0, 0, 0, 0, 0, 0, 0, 7]\<rparr>" zeroSource
        "exampleXhr ''https://app.example'' ''/api''"]
      traceXhr_injects [of examplePage _ zeroSource "exampleXhr ''https://app.example'' ''/api''"]
      t e
    by (auto simp: toString_zeroSource x)
qed

text \<open>
  The statement of the specification fails twice. With an active upstream scope a
  same-origin request receives no header. And the test of \<open>traceXhr\<close> compares the
  global \<open>origin\<close> of the page with \<open>window.location.origin\<close> and never reads the
  destination of the request: on an ordinary page a cross-origin request receives all
  five headers.
\<close>

theorem traceXhr_not_as_specified:
  "\<not> headersAsSpecified tracedPage zeroSource (exampleXhr ''https://app.example'' ''/api'') \<and>
   \<not> headersAsSpecified examplePage zeroSource
        (exampleXhr ''https://other.example'' ''https://other.example/api'')"
proof
  have "traceXhr tracedPage zeroSource (exampleXhr ''https://app.example'' ''/api'') =
      Inr (exampleXhr ''https://app.example'' ''/api'', Some \<lparr>buffer = [0, 0, 0, 0, 0, 0, 0, 7]\<rparr>)"
    by (rule traceXhr_adopts) (simp add: tracedPage_def)
  then show "\<not> headersAsSpecified tracedPage zeroSource (exampleXhr ''https://app.example'' ''/api'')"
    by (simp add: headersAsSpecified_def attachedBy_def datadogHeaders_def tracedPage_def
        examplePage_def exampleXhr_def)
next
  have "traceXhr examplePage zeroSource
          (exampleXhr ''https://other.example'' ''https://other.example/api'') =
      Inr ((exampleXhr ''https://other.example'' ''https://other.example/api'')
             \<lparr>requestHeaders :=
                requestHeaders (exampleXhr ''https://other.example'' ''https://other.example/api'') @
                [(''x-datadog-trace-id'', ''0''), (''x-datadog-parent-id'', ''0''),
                 (''x-datadog-origin'', ''rum''), (''x-datadog-sampling-priority'', ''1''),
                 (''x-datadog-sampled'', ''1'')]\<rparr>,
           Some (constructor zeroSource))"
    by (rule traceXhr_mints) (simp_all add: examplePage_def toString_zeroSource)
  then show "\<not> headersAsSpecified examplePage zeroSource
        (exampleXhr ''https://other.example'' ''https://other.example/api'')"
    by (simp add: headersAsSpecified_def attachedBy_def datadogHeaders_def
        examplePage_def exampleXhr_def)
qed

section \<open>Properties of request collection\<close>

text \<open>Once the latch is set, no occurrence changes anything.\<close>

lemma onSignal_reported:
  "hasBeenReported c \<Longrightarrow> onSignal normalizeUrl (c, g) occ = (c, g)"
proof -
  assume r: "hasBeenReported c"
  obtain s x t where occ: "occ = (s, x, t)" by (metis prod_cases3)
  show ?thesis unfolding occ using r by (cases s) (auto simp: monitor_def reportXhr_def)
qed


lemma onSignal_idle:
  "\<not> completes occ \<Longrightarrow> onSignal normalizeUrl cg occ = cg"
proof -
  assume n: "\<not> completes occ"
  obtain s x t where occ: "occ = (s, x, t)" by (metis prod_cases3)
  show ?thesis using n unfolding occ by (cases s) (auto simp: completes_def)
qed


text \<open>On an object without \<open>_datadog_xhr\<close> the first completing occurrence sets the
  latch and publishes nothing.\<close>

lemma onSignal_first_undefined:
  assumes "completes occ" and "\<not> hasBeenReported c" and "datadog_xhr (fst (snd occ)) = None"
  shows "onSignal normalizeUrl (c, g) occ = (c\<lparr>hasBeenReported := True\<rparr>, g)"
proof -
  obtain s x t where occ: "occ = (s, x, t)" by (metis prod_cases3)
  show ?thesis using assms unfolding occ
    by (cases s) (auto simp: completes_def monitor_def reportXhr_def latched_def Let_def)
qed


text \<open>A request opened through the wrapped \<open>open\<close> carries the record.\<close>

lemma xhrOpen_records: "datadog_xhr (xhrOpen xhr method0 url0) = Some (method0, url0)"
  by (simp add: xhrOpen_def)

text \<open>When no occurrence finds \<open>_datadog_xhr\<close>, no event is ever published.\<close>

lemma deliver_undefined:
  assumes "\<forall>occ \<in> set occs. datadog_xhr (fst (snd occ)) = None"
  shows "completeEvents (snd (deliver normalizeUrl (c, g) occs)) = completeEvents g"
  using assms
proof (induction occs arbitrary: c)
  case Nil
  show ?case by (simp add: deliver_def)
next
  case (Cons occ occs)
  have rest: "completeEvents (snd (deliver normalizeUrl (c', g) occs)) = completeEvents g" for c'
    using Cons.IH [of c'] Cons.prems by simp
  have step: "\<exists>c'. onSignal normalizeUrl (c, g) occ = (c', g)"
  proof (cases "completes occ")
    case False
    then show ?thesis by (simp add: onSignal_idle)
  next
    case True
    show ?thesis
    proof (cases "hasBeenReported c")
      case True
      then show ?thesis by (simp add: onSignal_reported)
    next
      case False
      have "datadog_xhr (fst (snd occ)) = None" using Cons.prems by simp
      from onSignal_first_undefined [OF \<open>completes occ\<close> False this] show ?thesis by blast
    qed
  qed
  then obtain c' where "onSignal normalizeUrl (c, g) occ = (c', g)" by blast
  then have "deliver normalizeUrl (c, g) (occ # occs) = deliver normalizeUrl (c', g) occs"
    by (simp add: deliver_def)
  then show ?case using rest by simp
qed







lemma startRequestCollection_singleton:
  "requestObservablesSingleton (snd (startRequestCollection p)) = Some (fst (startRequestCollection p))"
  by (auto simp: startRequestCollection_def trackXhr_def trackFetch_def Let_def
      split: option.splits)

lemma startRequestCollection_again:
  "requestObservablesSingleton p = Some obs \<Longrightarrow> startRequestCollection p = (obs, p)"
  by (simp add: startRequestCollection_def)

lemma startAgain_installed:
  "requestObservablesSingleton p = Some obs \<Longrightarrow> startAgain n p = p"
  by (induction n) (simp_all add: startRequestCollection_again)

text \<open>
  C7. After the first call of \<open>startRequestCollection\<close>, any further call (after any
  number of calls in between) returns the pair of observables of the first call and
  changes nothing: no surface is wrapped again. On a platform where nothing was
  installed, each surface lies under exactly one wrapper after two calls, so the
  original was saved once.
\<close>

theorem startRequestCollection_idempotent:
  "startRequestCollection (startAgain n (snd (startRequestCollection p))) =
     (fst (startRequestCollection p), snd (startRequestCollection p)) \<and>
   wrapDepth (xhr_open (snd (startRequestCollection (snd (startRequestCollection (pristine hasFetch)))))) = 1 \<and>
   wrapDepth (xhr_send (snd (startRequestCollection (snd (startRequestCollection (pristine hasFetch)))))) = 1 \<and>
   map_option wrapDepth
     (window_fetch (snd (startRequestCollection (snd (startRequestCollection (pristine hasFetch))))))
     = (if hasFetch then Some 1 else None)"
proof -
  have inst: "requestObservablesSingleton (snd (startRequestCollection q)) =
      Some (fst (startRequestCollection q))" for q
    by (rule startRequestCollection_singleton)
  have later: "startRequestCollection (startAgain m (snd (startRequestCollection q))) =
      (fst (startRequestCollection q), snd (startRequestCollection q))" for m q
    by (simp only: startAgain_installed [OF inst] startRequestCollection_again [OF inst])
  have first: "snd (startRequestCollection (pristine hasFetch)) =
      \<lparr>xhr_open = Wrapper (0, 1) Native, xhr_send = Wrapper (0, 1) Native,
       window_fetch = (if hasFetch then Some (Wrapper (0, 1) Native) else None),
       requestObservablesSingleton = Some (0, 1), observablesCreated = 2\<rparr>"
    by (simp add: startRequestCollection_def pristine_def trackXhr_def trackFetch_def Let_def)
  have second: "snd (startRequestCollection (snd (startRequestCollection (pristine hasFetch)))) =
      snd (startRequestCollection (pristine hasFetch))"
    using later [of 0 "pristine hasFetch"] by simp
  show ?thesis
    by (simp only: later second) (simp add: first)
qed

text \<open>
  C8. When the promise of an instrumented \<open>fetch\<close> rejects with an instance of \<open>Error\<close>,
  exactly one complete event is published, with the \<open>requestId\<close> of the call, status 0
  and, as its response, the text the stack-trace formatter returns for the failure;
  that text is non-empty for a formatter that never returns the empty string.
\<close>

theorem fetch_rejection_reported:
  assumes "\<And>st. toStackTraceString st \<noteq> []"
  shows "\<exists>ev. completeEvents
             (onSettled computeStackTrace toStackTraceString normalizeUrl now c
                (Rejected (ErrorInstance err)) g) = completeEvents g @ [ev] \<and>
           requestId ev = fetch_requestId c \<and> status ev = 0 \<and>
           response ev = Some (toStackTraceString (computeStackTrace err)) \<and>
           response ev \<noteq> None \<and> response ev \<noteq> Some []"
  using assms
  by (simp add: onSettled_def reportFetch_def monitor_def Let_def)

theorem fetch_rejection_reported_witness:
  "\<exists>ev. completeEvents
       (onSettled id exampleFormatter id 250
          \<lparr>fetch_method = ''GET'', fetch_startTime = 200, fetch_requestId = 3,
           fetch_traceId = None, fetch_input = UrlString ''/api''\<rparr>
          (Rejected (ErrorInstance ''Failed to fetch''))
          \<lparr>nextRequestId = 4, startEvents = [1, 2, 3], completeEvents = []\<rparr>) = [ev] \<and>
     requestId ev = 3 \<and> status ev = 0 \<and>
     response ev = Some ''Error: Failed to fetch''"
proof -
  have nonempty: "exampleFormatter st \<noteq> []" for st
    by (simp add: exampleFormatter_def)
  show ?thesis
    using fetch_rejection_reported [of exampleFormatter id id 250
        "\<lparr>fetch_method = ''GET'', fetch_startTime = 200, fetch_requestId = 3,
           fetch_traceId = None, fetch_input = UrlString ''/api''\<rparr>"
        "''Failed to fetch''"
        "\<lparr>nextRequestId = 4, startEvents = [1, 2, 3], completeEvents = []\<rparr>", OF nonempty]
    by (auto simp: exampleFormatter_def)
qed

section \<open>Properties of batched delivery\<close>

lemma uriUnescaped_plain: "uriUnescaped c \<Longrightarrow> c \<noteq> CHR ''%'' \<and> regexDot c"
  by (auto simp: uriUnescaped_def regexDot_def)

lemma regexDot_hexDigit: "n < 16 \<Longrightarrow> regexDot (hexDigit n)"
proof -
  assume "n < 16"
  then have "hexDigit n \<in> set ''0123456789ABCDEF''"
    unfolding hexDigit_def by (intro nth_mem) simp
  then show ?thesis by (auto simp: regexDot_def)
qed

lemma of_char_less: "(of_char c :: nat) < 256"
proof -
  have "(of_char c :: nat) mod 256 = of_char c" by (rule of_char_mod_256)
  then show ?thesis by (metis mod_less_divisor zero_less_numeral)
qed

lemma splitMatches_plain:
  "c \<noteq> CHR ''%'' \<Longrightarrow> regexDot c \<Longrightarrow> splitMatches (c # cs) = Suc (splitMatches cs)"
  by (cases cs rule: splitMatches.cases) simp_all

lemma splitMatches_escape:
  "regexDot d \<Longrightarrow> regexDot e \<Longrightarrow> splitMatches (CHR ''%'' # d # e # cs) = Suc (splitMatches cs)"
  by simp

lemma splitMatches_encodeURI: "splitMatches (encodeURI s) = length s"
proof (induction s)
  case Nil
  show ?case by (simp add: encodeURI_def)
next
  case (Cons c s)
  show ?case
  proof (cases "uriUnescaped c")
    case True
    then have "encodeURI (c # s) = c # encodeURI s" by (simp add: encodeURI_def)
    then show ?thesis
      using uriUnescaped_plain [OF True] Cons.IH by (simp add: splitMatches_plain)
  next
    case False
    have h: "(of_char c :: nat) div 16 < 16" "(of_char c :: nat) mod 16 < 16"
      using of_char_less [of c] by (simp_all add: less_mult_imp_div_less)
    from False have "encodeURI (c # s) =
        CHR ''%'' # hexDigit (of_char c div 16) # hexDigit (of_char c mod 16) # encodeURI s"
      by (simp add: encodeURI_def)
    then show ?thesis
      using Cons.IH regexDot_hexDigit [OF h(1)] regexDot_hexDigit [OF h(2)]
      by (simp only: splitMatches_escape length_Cons)
  qed
qed

lemma sizeInBytes_length: "sizeInBytes s = length s"
  by (simp add: sizeInBytes_def splitMatches_encodeURI)

lemma flush_config [simp]: "maxSize (flush b) = maxSize b" "bytesLimit (flush b) = bytesLimit b"
  by (simp_all add: flush_def)

lemma add_config [simp]: "maxSize (add b m) = maxSize b" "bytesLimit (add b m) = bytesLimit b"
  by (simp_all add: add_def process_def push_def Let_def)

lemma run_config [simp]: "maxSize (run b ops) = maxSize b" "bytesLimit (run b ops) = bytesLimit b"
proof -
  have "maxSize (foldl apply_op b ops) = maxSize b \<and> bytesLimit (foldl apply_op b ops) = bytesLimit b"
  proof (induction ops arbitrary: b)
    case Nil
    show ?case by simp
  next
    case (Cons x xs)
    show ?case by (cases x) (simp_all add: Cons.IH)
  qed
  then show "maxSize (run b ops) = maxSize b" "bytesLimit (run b ops) = bytesLimit b"
    by (simp_all add: run_def)
qed

lemma batchInv_newBatch: "batchInv (newBatch maxSize0 bytesLimit0)"
  by (simp add: batchInv_def newBatch_def)

lemma batchInv_flush: "batchInv b \<Longrightarrow> batchInv (flush b)"
  by (simp add: batchInv_def flush_def)

lemma batchInv_flush_nonempty: "batchBuffer b \<noteq> [] \<Longrightarrow> batchInv (flush b)"
  by (simp add: batchInv_def flush_def)

lemma push_nonempty: "batchBuffer (push b pm sz) \<noteq> []"
  by (simp add: push_def)

lemma batchInv_add: assumes "batchInv b" shows "batchInv (add b m)"
proof -
  let ?sz = "sizeInBytes m"
  let ?b1 = "if willReachedBytesLimitWith b ?sz then flush b else b"
  let ?b2 = "push ?b1 m ?sz"
  have i1: "batchInv ?b1" using assms by (simp add: batchInv_flush)
  have acc: "bufferBytesSize ?b2 = sum_list (map sizeInBytes (batchBuffer ?b2))"
    using i1 by (simp add: batchInv_def push_def)
  have cnt: "0 < maxSize ?b2 \<longrightarrow> length (batchBuffer ?b2) \<le> maxSize ?b2"
    using i1 by (auto simp: batchInv_def push_def)
  have add_eq: "add b m = (if isFull ?b2 then flush ?b2 else ?b2)"
    by (simp add: add_def process_def Let_def)
  show ?thesis
  proof (cases "isFull ?b2")
    case True
    have "batchInv (flush ?b2)"
      by (intro batchInv_flush_nonempty push_nonempty)
    with True show ?thesis by (simp only: add_eq if_True)
  next
    case False
    then have "length (batchBuffer ?b2) \<noteq> maxSize ?b2" "bufferBytesSize ?b2 < bytesLimit ?b2"
      by (simp_all add: isFull_def)
    with acc cnt have "batchInv ?b2"
      unfolding batchInv_def by (metis le_neq_implies_less)
    with False show ?thesis by (simp only: add_eq if_False)
  qed
qed

lemma batchInv_run: "batchInv b \<Longrightarrow> batchInv (run b ops)"
proof -
  have "batchInv b \<Longrightarrow> batchInv (foldl apply_op b ops)"
  proof (induction ops arbitrary: b)
    case Nil
    then show ?case by simp
  next
    case (Cons x xs)
    then show ?case by (cases x) (simp_all add: batchInv_add batchInv_flush)
  qed
  then show "batchInv b \<Longrightarrow> batchInv (run b ops)" by (simp add: run_def)
qed

lemma batchInv_ceilings:
  assumes "batchInv b"
  shows "bufferBytesSize b \<le> bytesLimit b"
    and "0 < maxSize b \<Longrightarrow> length (batchBuffer b) \<le> maxSize b"
  using assms by (auto simp: batchInv_def)

text \<open>
  C4 (as amended). For a batch whose record ceiling \<open>maxSize\<close> is at least 1: after every
  \<open>add\<close>, following any sequence of \<open>add\<close> and \<open>flush\<close> on a new batch and for a message
  of any size, the number of buffered records is at most \<open>maxSize\<close> and the byte
  accumulator is at most \<open>bytesLimit\<close>.
\<close>

theorem add_within_ceilings:
  assumes "0 < maxSize0"
  shows "length (batchBuffer (add (run (newBatch maxSize0 bytesLimit0) ops) message)) \<le> maxSize0 \<and>
         bufferBytesSize (add (run (newBatch maxSize0 bytesLimit0) ops) message) \<le> bytesLimit0"
proof -
  let ?b = "add (run (newBatch maxSize0 bytesLimit0) ops) message"
  have inv: "batchInv ?b"
    by (intro batchInv_add batchInv_run batchInv_newBatch)
  have cfg: "maxSize ?b = maxSize0" "bytesLimit ?b = bytesLimit0"
    by (simp_all add: newBatch_def)
  show ?thesis
    using batchInv_ceilings [OF inv] assms unfolding cfg by simp
qed

theorem add_within_ceilings_witness:
  "(0::nat) < 2 \<and>
   length (batchBuffer (add (run (newBatch 2 8) [Add ''abc'', Flush, Add ''de'']) ''0123456789'')) \<le> 2 \<and>
   bufferBytesSize (add (run (newBatch 2 8) [Add ''abc'', Flush, Add ''de'']) ''0123456789'') \<le> 8"
  using add_within_ceilings [of 2 8 "[Add ''abc'', Flush, Add ''de'']" "''0123456789''"] by simp

text \<open>
  With \<open>maxSize = 0\<close> the test \<open>buffer.length === maxSize\<close> of \<open>isFull\<close> never holds after
  a \<open>push\<close>: one small record stays buffered, above the ceiling.
\<close>

theorem add_exceeds_zero_maxSize:
  "\<not> length (batchBuffer (add (run (newBatch 0 100) []) ''aaaaa'')) \<le> maxSize (add (run (newBatch 0 100) []) ''aaaaa'')"
  by (simp add: run_def newBatch_def add_def process_def sizeInBytes_length
      willReachedBytesLimitWith_def push_def isFull_def flush_def Let_def)


lemma length_9_cases:
  "length ms = 9 \<Longrightarrow> \<exists>m1 m2 m3 m4 m5 m6 m7 m8 m9. ms = [m1, m2, m3, m4, m5, m6, m7, m8, m9]"
  by (auto simp: length_Suc_conv numeral_eq_Suc)

text \<open>
  C5. With \<open>bytesLimit = 100\<close> and a record ceiling of 10: adding nine records of 5
  bytes each makes no delivery and leaves them buffered with 45 bytes; adding a record
  of 60 bytes then delivers exactly one batch, the nine records joined in order, before
  the new record is appended, and leaves the buffer holding only the 60-byte record.
\<close>

theorem scenario_nine_then_sixty:
  assumes "length ms = 9" and "\<forall>m \<in> set ms. sizeInBytes m = 5" and "sizeInBytes big = 60"
  shows "requestSends (run (newBatch 10 100) (map Add ms)) = [] \<and>
         batchBuffer (run (newBatch 10 100) (map Add ms)) = ms \<and>
         bufferBytesSize (run (newBatch 10 100) (map Add ms)) = 45 \<and>
         requestSends (add (run (newBatch 10 100) (map Add ms)) big) = [(join [CHR 0x0A] ms, 53)] \<and>
         batchBuffer (add (run (newBatch 10 100) (map Add ms)) big) = [big] \<and>
         bufferBytesSize (add (run (newBatch 10 100) (map Add ms)) big) = 60"
proof -
  from assms(1) obtain m1 m2 m3 m4 m5 m6 m7 m8 m9
    where ms: "ms = [m1, m2, m3, m4, m5, m6, m7, m8, m9]"
    using length_9_cases by blast
  have sz: "sizeInBytes m1 = 5" "sizeInBytes m2 = 5" "sizeInBytes m3 = 5" "sizeInBytes m4 = 5"
    "sizeInBytes m5 = 5" "sizeInBytes m6 = 5" "sizeInBytes m7 = 5" "sizeInBytes m8 = 5"
    "sizeInBytes m9 = 5"
    using assms(2) by (simp_all add: ms)
  have nine: "run (newBatch 10 100) (map Add ms) =
      \<lparr>maxSize = 10, bytesLimit = 100, batchBuffer = ms, bufferBytesSize = 45, requestSends = []\<rparr>"
    by (simp add: ms sz assms(3) run_def newBatch_def add_def process_def
        willReachedBytesLimitWith_def push_def isFull_def flush_def Let_def)
  have ten: "add \<lparr>maxSize = 10, bytesLimit = 100, batchBuffer = ms, bufferBytesSize = 45,
        requestSends = []\<rparr> big =
      \<lparr>maxSize = 10, bytesLimit = 100, batchBuffer = [big], bufferBytesSize = 60,
       requestSends = [(join [CHR 0x0A] ms, 53)]\<rparr>"
    using assms(1) by (simp add: assms(3) add_def process_def willReachedBytesLimitWith_def
        push_def isFull_def flush_def Let_def)
  show ?thesis by (simp add: nine ten)
qed

theorem scenario_nine_then_sixty_witness:
  "length [''{a:1}'', ''{a:2}'', ''{a:3}'', ''{a:4}'', ''{a:5}'', ''{a:6}'', ''{a:7}'', ''{a:8}'', ''{a:9}''] = 9 \<and>
   sizeInBytes ''{a:1}'' = 5 \<and> sizeInBytes ''{a:9}'' = 5 \<and>
   sizeInBytes (replicate 60 CHR ''x'') = 60 \<and>
   requestSends (add (run (newBatch 10 100)
      (map Add [''{a:1}'', ''{a:2}'', ''{a:3}'', ''{a:4}'', ''{a:5}'', ''{a:6}'', ''{a:7}'', ''{a:8}'', ''{a:9}'']))
      (replicate 60 CHR ''x'')) =
     [(join [CHR 0x0A] [''{a:1}'', ''{a:2}'', ''{a:3}'', ''{a:4}'', ''{a:5}'', ''{a:6}'', ''{a:7}'', ''{a:8}'', ''{a:9}''], 53)] \<and>
   batchBuffer (add (run (newBatch 10 100)
      (map Add [''{a:1}'', ''{a:2}'', ''{a:3}'', ''{a:4}'', ''{a:5}'', ''{a:6}'', ''{a:7}'', ''{a:8}'', ''{a:9}'']))
      (replicate 60 CHR ''x'')) = [replicate 60 CHR ''x'']"
  using scenario_nine_then_sixty [of
      "[''{a:1}'', ''{a:2}'', ''{a:3}'', ''{a:4}'', ''{a:5}'', ''{a:6}'', ''{a:7}'', ''{a:8}'', ''{a:9}'']"
      "replicate 60 CHR ''x''"]
  by (simp add: sizeInBytes_length)

text \<open>
  C6. In every state of the buffer: \<open>flush\<close> on a non-empty buffer of \<open>n\<close> records makes
  exactly one call of the transport, with the records joined by a newline in buffer
  order and the size \<open>bufferBytesSize + n - 1\<close>, and resets the buffer and the
  accumulator; on an empty buffer it changes nothing. In every state that \<open>add\<close> and
  \<open>flush\<close> can reach from a new batch, that size is the sum of the sizes of the records
  plus \<open>n - 1\<close>.
\<close>

theorem flush_delivers_once:
  "flush b =
     (if batchBuffer b = [] then b
      else b\<lparr>requestSends := requestSends b @
               [(join [CHR 0x0A] (batchBuffer b), bufferBytesSize b + length (batchBuffer b) - 1)],
             batchBuffer := [], bufferBytesSize := 0\<rparr>) \<and>
   flush (run (newBatch maxSize0 bytesLimit0) ops) =
     (if batchBuffer (run (newBatch maxSize0 bytesLimit0) ops) = []
      then run (newBatch maxSize0 bytesLimit0) ops
      else (run (newBatch maxSize0 bytesLimit0) ops)
        \<lparr>requestSends := requestSends (run (newBatch maxSize0 bytesLimit0) ops) @
           [(join [CHR 0x0A] (batchBuffer (run (newBatch maxSize0 bytesLimit0) ops)),
             sum_list (map sizeInBytes (batchBuffer (run (newBatch maxSize0 bytesLimit0) ops))) +
               length (batchBuffer (run (newBatch maxSize0 bytesLimit0) ops)) - 1)],
         batchBuffer := [], bufferBytesSize := 0\<rparr>)"
proof
  show "flush b =
     (if batchBuffer b = [] then b
      else b\<lparr>requestSends := requestSends b @
               [(join [CHR 0x0A] (batchBuffer b), bufferBytesSize b + length (batchBuffer b) - 1)],
             batchBuffer := [], bufferBytesSize := 0\<rparr>)"
    by (simp add: flush_def)
next
  let ?r = "run (newBatch maxSize0 bytesLimit0) ops"
  have "batchInv ?r"
    by (intro batchInv_run batchInv_newBatch)
  then have acc: "bufferBytesSize ?r = sum_list (map sizeInBytes (batchBuffer ?r))"
    by (simp add: batchInv_def)
  show "flush ?r =
     (if batchBuffer ?r = [] then ?r
      else ?r\<lparr>requestSends := requestSends ?r @
           [(join [CHR 0x0A] (batchBuffer ?r),
             sum_list (map sizeInBytes (batchBuffer ?r)) + length (batchBuffer ?r) - 1)],
         batchBuffer := [], bufferBytesSize := 0\<rparr>)"
    by (simp add: flush_def acc)
qed

end
